theory Spec2Isabelle
  imports Complex_Main "HOL-Library.Sublist" "HOL-Library.Multiset"
begin

section \<open>Data model (types.ts)\<close>

text \<open>
  The fields of a product and of a customer carry the prefixes \<open>p_\<close> and \<open>c_\<close>, those
  of an invoice \<open>inv_\<close>; the \<open>id\<close> of a line item is \<open>id'\<close>.
  A JavaScript \<open>number\<close> that carries a quantity, a rate or an amount is modelled by a
  rational number: the arithmetic of the model is exact, the rounding error of IEEE
  doubles and the values \<open>NaN\<close> and \<open>Infinity\<close> are outside it. An optional field
  (\<open>packing?: string\<close>, \<open>defaultGstRate?: number\<close>) is an \<open>option\<close>, \<open>None\<close> for
  \<open>undefined\<close>.
\<close>

record Product =
  p_id :: string
  p_name :: string
  p_rate :: rat
  p_unit :: string
  p_packing :: "string option"

record InvoiceItem =
  id' :: string
  productId :: string
  name :: string
  quantity :: rat
  unit :: string
  rate :: rat
  amount :: rat
  packing :: "string option"

record Customer =
  c_id :: string
  c_name :: string
  c_city :: string

record BusinessSettings =
  nextInvoiceNumber :: int
  enableGst :: bool
  defaultGstRate :: "rat option"

record Invoice =
  inv_id :: string
  inv_date :: string
  inv_customerName :: string
  inv_customerCity :: string
  inv_items :: "InvoiceItem list"
  inv_total :: rat
  inv_subtotal :: "rat option"
  inv_gstAmount :: "rat option"
  inv_gstRate :: "rat option"
  inv_sgstAmount :: "rat option"
  inv_cgstAmount :: "rat option"

section \<open>Invoice calculator\<close>

text \<open>\<open>Math.round\<close>: the nearest integer, a tie going up.\<close>

definition Math_round_int :: "rat \<Rightarrow> int" where
  "Math_round_int x = \<lfloor>x + 1 / 2\<rfloor>"

definition Math_round :: "rat \<Rightarrow> rat" where
  "Math_round x = of_int (Math_round_int x)"

text \<open>\<open>settings.defaultGstRate || 0\<close>: an absent rate reads as 0.\<close>

definition rate_or_0 :: "BusinessSettings \<Rightarrow> rat" where
  "rate_or_0 st = (case defaultGstRate st of None \<Rightarrow> 0 | Some r \<Rightarrow> r)"

subsection \<open>InvoiceGenerator (the live totals of the cart)\<close>

definition subtotal :: "InvoiceItem list \<Rightarrow> rat" where
  "subtotal items = foldl (\<lambda>sum i. sum + amount i) 0 items"

definition gstRate :: "BusinessSettings \<Rightarrow> rat" where
  "gstRate st = (if enableGst st then rate_or_0 st else 0)"

definition halfRate :: "BusinessSettings \<Rightarrow> rat" where
  "halfRate st = gstRate st / 2"

definition sgstAmount :: "BusinessSettings \<Rightarrow> InvoiceItem list \<Rightarrow> rat" where
  "sgstAmount st items =
     (if enableGst st then Math_round (subtotal items * (halfRate st / 100)) else 0)"

definition cgstAmount :: "BusinessSettings \<Rightarrow> InvoiceItem list \<Rightarrow> rat" where
  "cgstAmount st items =
     (if enableGst st then Math_round (subtotal items * (halfRate st / 100)) else 0)"

definition totalTax :: "BusinessSettings \<Rightarrow> InvoiceItem list \<Rightarrow> rat" where
  "totalTax st items = sgstAmount st items + cgstAmount st items"

definition grandTotal :: "BusinessSettings \<Rightarrow> InvoiceItem list \<Rightarrow> rat" where
  "grandTotal st items = subtotal items + totalTax st items"

subsection \<open>InvoiceTemplate (the printed document)\<close>

text \<open>
  The template takes the rate from the \<open>gstRate\<close> prop when the history view passes one,
  and from the settings otherwise; whether tax applies always comes from the settings.
\<close>

definition calcSubtotal :: "InvoiceItem list \<Rightarrow> rat" where
  "calcSubtotal items = foldl (\<lambda>sum item. sum + amount item) 0 items"

definition tpl_rate :: "BusinessSettings \<Rightarrow> rat option \<Rightarrow> rat" where
  "tpl_rate st propGstRate = (case propGstRate of Some r \<Rightarrow> r | None \<Rightarrow> rate_or_0 st)"

definition tpl_halfRate :: "BusinessSettings \<Rightarrow> rat option \<Rightarrow> rat" where
  "tpl_halfRate st propGstRate = tpl_rate st propGstRate / 2"

definition calcSgst :: "BusinessSettings \<Rightarrow> rat option \<Rightarrow> InvoiceItem list \<Rightarrow> rat" where
  "calcSgst st propGstRate items =
     (if enableGst st then Math_round (calcSubtotal items * (tpl_halfRate st propGstRate / 100))
      else 0)"

definition calcCgst :: "BusinessSettings \<Rightarrow> rat option \<Rightarrow> InvoiceItem list \<Rightarrow> rat" where
  "calcCgst st propGstRate items =
     (if enableGst st then Math_round (calcSubtotal items * (tpl_halfRate st propGstRate / 100))
      else 0)"

definition totalAmount :: "BusinessSettings \<Rightarrow> rat option \<Rightarrow> InvoiceItem list \<Rightarrow> rat" where
  "totalAmount st propGstRate items =
     calcSubtotal items + calcSgst st propGstRate items + calcCgst st propGstRate items"


section \<open>Array and string helpers\<close>

text \<open>\<open>String.prototype.trim\<close> on the ASCII white space.\<close>

definition is_space :: "char \<Rightarrow> bool" where
  "is_space c = (c \<in> set [CHR '' '', CHR 0x09, CHR 0x0A, CHR 0x0B, CHR 0x0C, CHR 0x0D])"

definition trim :: "string \<Rightarrow> string" where
  "trim s = rev (dropWhile is_space (rev (dropWhile is_space s)))"

text \<open>\<open>Array.prototype.findIndex\<close>, \<open>None\<close> for \<open>-1\<close>.\<close>

fun findIndex :: "('a \<Rightarrow> bool) \<Rightarrow> 'a list \<Rightarrow> nat option" where
  "findIndex P [] = None"
| "findIndex P (x # xs) =
     (if P x then Some 0 else (case findIndex P xs of None \<Rightarrow> None | Some i \<Rightarrow> Some (Suc i)))"

section \<open>Printing an integer (\<open>Number.prototype.toString\<close>)\<close>

text \<open>
  An integer-valued \<open>number\<close> is modelled by an \<open>int\<close>. Below \<open>10^21\<close> JavaScript prints
  its decimal digits; from \<open>10^21\<close> on it prints exponent notation: the first digit, a
  point and the remaining significant digits when there are any, then \<open>e+\<close> and the
  exponent. The digits printed here are those of the exact integer. JavaScript prints the
  shortest digits that read back as the same double, which are the exact ones for every
  integer up to \<open>2^53\<close> and, above \<open>10^21\<close>, for every double with at most 15 significant
  digits; between \<open>2^53\<close> and \<open>10^21\<close> the string has the same length and may differ in
  its last digits.
\<close>

definition digit_char :: "nat \<Rightarrow> char" where
  "digit_char d = ''0123456789'' ! d"

function nat_digits :: "nat \<Rightarrow> string" where
  "nat_digits n = (if n < 10 then [digit_char n] else nat_digits (n div 10) @ [digit_char (n mod 10)])"
  by pat_completeness auto
termination
  by (relation "measure (\<lambda>n. n)") auto

declare nat_digits.simps [simp del]

definition strip_zeros :: "string \<Rightarrow> string" where
  "strip_zeros ds = rev (dropWhile (\<lambda>c. c = CHR ''0'') (rev ds))"

definition exp_notation :: "nat \<Rightarrow> string" where
  "exp_notation n =
     (let ds = nat_digits n; sig = strip_zeros ds
      in hd sig # (if tl sig = [] then [] else CHR ''.'' # tl sig)
         @ ''e+'' @ nat_digits (length ds - 1))"

definition nat_toString :: "nat \<Rightarrow> string" where
  "nat_toString n = (if n < 10 ^ 21 then nat_digits n else exp_notation n)"

definition Number_toString :: "int \<Rightarrow> string" where
  "Number_toString i = (if i < 0 then CHR ''-'' # nat_toString (nat (- i)) else nat_toString (nat i))"

section \<open>Amount in words (\<open>numberToWords\<close>, InvoiceTemplate)\<close>

text \<open>The tables \<open>a\<close> and \<open>b\<close> of the source.\<close>

definition a_words :: "string list" where
  "a_words = ['''', ''One '', ''Two '', ''Three '', ''Four '', ''Five '', ''Six '', ''Seven '',
     ''Eight '', ''Nine '', ''Ten '', ''Eleven '', ''Twelve '', ''Thirteen '', ''Fourteen '',
     ''Fifteen '', ''Sixteen '', ''Seventeen '', ''Eighteen '', ''Nineteen '']"

definition b_words :: "string list" where
  "b_words = ['''', '''', ''Twenty'', ''Thirty'', ''Forty'', ''Fifty'', ''Sixty'', ''Seventy'',
     ''Eighty'', ''Ninety'']"

text \<open>The value of a decimal digit, \<open>None\<close> for any other character.\<close>

definition char_digit :: "char \<Rightarrow> nat option" where
  "char_digit c = findIndex (\<lambda>d. d = c) ''0123456789''"

definition is_digit :: "char \<Rightarrow> bool" where
  "is_digit c = (char_digit c \<noteq> None)"

text \<open>
  \<open>Number(s)\<close> for a string of decimal digits (the empty string reads as 0); \<open>None\<close> is
  \<open>NaN\<close>. It is applied to the groups of a digit pattern and to single characters of them.
\<close>

fun digits_value :: "string \<Rightarrow> nat \<Rightarrow> nat option" where
  "digits_value [] acc = Some acc"
| "digits_value (c # cs) acc =
     (case char_digit c of None \<Rightarrow> None | Some d \<Rightarrow> digits_value cs (10 * acc + d))"

definition Number_digits :: "string \<Rightarrow> nat option" where
  "Number_digits g = digits_value g 0"

text \<open>
  Indexing a table with a number: \<open>undefined\<close> (\<open>None\<close>) for \<open>NaN\<close> and past the end.
  Indexing a string: the one-character string, \<open>undefined\<close> past the end, and
  \<open>Number(undefined)\<close> is \<open>NaN\<close>. \<open>undefined\<close> concatenates as the text \<open>undefined\<close>.
\<close>

definition tbl_at :: "string list \<Rightarrow> nat option \<Rightarrow> string option" where
  "tbl_at t k = (case k of None \<Rightarrow> None | Some i \<Rightarrow> (if i < length t then Some (t ! i) else None))"

definition char_at :: "string \<Rightarrow> nat \<Rightarrow> string option" where
  "char_at g i = (if i < length g then Some [g ! i] else None)"

definition Number_opt :: "string option \<Rightarrow> nat option" where
  "Number_opt g = (case g of None \<Rightarrow> None | Some t \<Rightarrow> Number_digits t)"

definition str_of :: "string option \<Rightarrow> string" where
  "str_of v = (case v of None \<Rightarrow> ''undefined'' | Some t \<Rightarrow> t)"

text \<open>
  \<open>a[Number(g)] || b[Number(g[0])] + ' ' + a[Number(g[1])]\<close>: the table entry when it is
  a non-empty string, else the tens word, a space and the units word.
\<close>

definition tens_units :: "string \<Rightarrow> string" where
  "tens_units g =
     str_of (tbl_at b_words (Number_opt (char_at g 0))) @ '' ''
     @ str_of (tbl_at a_words (Number_opt (char_at g 1)))"

definition group_words :: "string \<Rightarrow> string" where
  "group_words g =
     (case tbl_at a_words (Number_digits g) of
        Some w \<Rightarrow> (if w \<noteq> [] then w else tens_units g)
      | None \<Rightarrow> tens_units g)"

text \<open>
  The match of \<open>/^(\d{2})(\d{2})(\d{2})(\d{1})(\d{2})$/\<close>: the five groups of a string of
  exactly nine digits, \<open>None\<close> (\<open>null\<close>) for any other string.
\<close>

definition match_groups :: "string \<Rightarrow> string list option" where
  "match_groups p =
     (if length p = 9 \<and> list_all is_digit p
      then Some [take 2 p, take 2 (drop 2 p), take 2 (drop 4 p), take 1 (drop 6 p),
                 take 2 (drop 7 p)]
      else None)"

text \<open>\<open>s.slice(-9)\<close>: the last nine characters, the whole string when it is shorter.\<close>

definition slice_last9 :: "string \<Rightarrow> string" where
  "slice_last9 t = drop (length t - 9) t"

text \<open>The five \<open>str +=\<close> statements on the groups of the match.\<close>

definition group_text :: "string list \<Rightarrow> string" where
  "group_text n_array =
     (let str0 = [];
          str1 = str0 @ (if Number_digits (n_array ! 0) \<noteq> Some 0
                         then group_words (n_array ! 0) @ ''Crore '' else []);
          str2 = str1 @ (if Number_digits (n_array ! 1) \<noteq> Some 0
                         then group_words (n_array ! 1) @ ''Lakh '' else []);
          str3 = str2 @ (if Number_digits (n_array ! 2) \<noteq> Some 0
                         then group_words (n_array ! 2) @ ''Thousand '' else []);
          str4 = str3 @ (if Number_digits (n_array ! 3) \<noteq> Some 0
                         then group_words (n_array ! 3) @ ''Hundred '' else []);
          str5 = str4 @ (if Number_digits (n_array ! 4) \<noteq> Some 0
                         then (if str4 \<noteq> [] then ''and '' else []) @ group_words (n_array ! 4)
                         else [])
      in str5)"

definition inWords :: "int \<Rightarrow> string" where
  "inWords inputNum =
     (let n = Number_toString inputNum
      in if length n > 9 then ''overflow''
         else case match_groups (slice_last9 (''000000000'' @ n)) of
           None \<Rightarrow> []
         | Some n_array \<Rightarrow> group_text n_array)"

definition numberToWords :: "int \<Rightarrow> string" where
  "numberToWords num = (if num = 0 then ''Zero'' else inWords num @ ''Only'')"

text \<open>The words printed on the invoice: \<open>numberToWords(Math.round(totalAmount))\<close>.\<close>

definition amountInWords :: "BusinessSettings \<Rightarrow> rat option \<Rightarrow> InvoiceItem list \<Rightarrow> string" where
  "amountInWords st propGstRate items =
     numberToWords (Math_round_int (totalAmount st propGstRate items))"

section \<open>Total weight (\<open>totalWeightDisplay\<close>, InvoiceTemplate)\<close>











text \<open>\<open>parts.join(' ')\<close>.\<close>

fun join_with :: "string \<Rightarrow> string list \<Rightarrow> string" where
  "join_with sep [] = []"
| "join_with sep [x] = x"
| "join_with sep (x # y # ys) = x @ sep @ join_with sep (y # ys)"


section \<open>Invoice history (\<open>filteredInvoices\<close>, InvoiceHistory)\<close>

subsection \<open>Search\<close>



subsection \<open>Dates\<close>








subsection \<open>Order\<close>










subsection \<open>A calendar for the examples\<close>





section \<open>CSV export (\<open>handleExportCSV\<close>, InvoiceHistory)\<close>

text \<open>
  The text of a number in a template literal and in \<open>join\<close> is an argument \<open>shw\<close> of the
  model: for an integer it is \<open>Number_toString\<close>, for a fraction JavaScript prints the
  shortest decimal that reads back as the same double, which exact arithmetic does not
  determine. The double quote is \<open>CHR 0x22\<close>, the line feed \<open>CHR 0x0A\<close>.
\<close>

definition headers :: "string list" where
  "headers = [''Bill No'', ''Date'', ''Customer Name'', ''City'', ''Items'', ''Total Amount'']"

text \<open>\<open>s.replace(/"/g, '""')\<close> and the quotes around it.\<close>

definition csv_escape :: "string \<Rightarrow> string" where
  "csv_escape t = concat (map (\<lambda>c. if c = CHR 0x22 then [CHR 0x22, CHR 0x22] else [c]) t)"

definition quoted :: "string \<Rightarrow> string" where
  "quoted t = CHR 0x22 # csv_escape t @ [CHR 0x22]"

definition item_text :: "(rat \<Rightarrow> string) \<Rightarrow> InvoiceItem \<Rightarrow> string" where
  "item_text shw item =
     name item
     @ (case packing item of None \<Rightarrow> [] | Some p \<Rightarrow> if p \<noteq> [] then '' '' @ p else [])
     @ '' ('' @ shw (quantity item) @ '' '' @ unit item @ '')''"

definition itemsString :: "(rat \<Rightarrow> string) \<Rightarrow> Invoice \<Rightarrow> string" where
  "itemsString shw invoice = join_with '', '' (map (item_text shw) (inv_items invoice))"

definition csv_row :: "(rat \<Rightarrow> string) \<Rightarrow> Invoice \<Rightarrow> string" where
  "csv_row shw invoice =
     join_with '',''
       [inv_id invoice, inv_date invoice, quoted (inv_customerName invoice), quoted (inv_customerCity invoice),
        quoted (itemsString shw invoice), shw (inv_total invoice)]"

definition csvContent :: "(rat \<Rightarrow> string) \<Rightarrow> Invoice list \<Rightarrow> string" where
  "csvContent shw invs = join_with [CHR 0x0A] (join_with '','' headers # map (csv_row shw) invs)"

text \<open>
  The handler returns without an export when the filtered list is empty (\<open>None\<close>);
  otherwise the content goes into the file offered for download.
\<close>

definition handleExportCSV :: "(rat \<Rightarrow> string) \<Rightarrow> Invoice list \<Rightarrow> string option" where
  "handleExportCSV shw invs = (if invs = [] then None else Some (csvContent shw invs))"

subsection \<open>Reading the file back\<close>

text \<open>The lines of a text: the pieces between the line feeds.\<close>

fun split_lines :: "string \<Rightarrow> string list" where
  "split_lines [] = [[]]"
| "split_lines (c # cs) =
     (if c = CHR 0x0A then [] # split_lines cs
      else (case split_lines cs of [] \<Rightarrow> [[c]] | p # ps \<Rightarrow> (c # p) # ps))"

text \<open>
  A reader of a quoted field in the manner of RFC 4180: after the opening quote, two
  quotes read as one and a single quote ends the field; the result is the field and the
  text after the closing quote, \<open>None\<close> when the field does not end.
\<close>

fun unquote :: "string \<Rightarrow> (string \<times> string) option" where
  "unquote [] = None"
| "unquote [c] = (if c = CHR 0x22 then Some ([], []) else None)"
| "unquote (c # d # ds) =
     (if c = CHR 0x22
      then (if d = CHR 0x22
            then (case unquote ds of None \<Rightarrow> None | Some (f, r) \<Rightarrow> Some (CHR 0x22 # f, r))
            else Some ([], d # ds))
      else (case unquote (d # ds) of None \<Rightarrow> None | Some (f, r) \<Rightarrow> Some (c # f, r)))"

definition read_quoted :: "string \<Rightarrow> (string \<times> string) option" where
  "read_quoted t = (case t of [] \<Rightarrow> None | c # cs \<Rightarrow> if c = CHR 0x22 then unquote cs else None)"

text \<open>The printer of the examples: the integer part of the number, as an integer.\<close>

definition show_floor :: "rat \<Rightarrow> string" where
  "show_floor r = Number_toString \<lfloor>r\<rfloor>"

section \<open>Cart manager (InvoiceGenerator)\<close>

text \<open>
  The component's props and state. A state setter called in a handler takes effect with
  the next render, before the next event is handled: a handler is a function from the
  state it was rendered with to the state of the next render.
\<close>

record Generator =
  products :: "Product list"
  customers :: "Customer list"
  settings :: BusinessSettings
  billNo :: string
  date :: string
  selectedCustomer :: "Customer option"
  customerName :: string
  customerCity :: string
  items :: "InvoiceItem list"
  selectedProductID :: string
  qty :: rat
  isSaved :: bool
  isSaving :: bool

text \<open>The new line's id is \<open>Date.now().toString()\<close>; the clock's reading is the argument \<open>now\<close>.\<close>

definition addItem :: "int \<Rightarrow> Generator \<Rightarrow> Generator" where
  "addItem now s =
     (if selectedProductID s = [] then s
      else case find (\<lambda>p. p_id p = selectedProductID s) (products s) of
        None \<Rightarrow> s
      | Some product \<Rightarrow>
          (let s' =
             (case findIndex (\<lambda>item. productId item = p_id product) (items s) of
                Some existingIndex \<Rightarrow>
                  (let existingItem = items s ! existingIndex;
                       newQty = quantity existingItem + qty s
                   in s\<lparr>items := (items s)[existingIndex :=
                          existingItem\<lparr>quantity := newQty, amount := newQty * rate existingItem\<rparr>]\<rparr>)
              | None \<Rightarrow>
                  s\<lparr>items := items s @
                     [\<lparr>id' = Number_toString now, productId = p_id product, name = p_name product,
                       quantity = qty s, unit = p_unit product, rate = p_rate product,
                       amount = qty s * p_rate product, packing = p_packing product\<rparr>]\<rparr>)
           in s'\<lparr>selectedProductID := [], qty := 1, isSaved := False\<rparr>))"

definition updateItemQty :: "string \<Rightarrow> rat \<Rightarrow> Generator \<Rightarrow> Generator" where
  "updateItemQty i delta s =
     s\<lparr>isSaved := False,
       items := map (\<lambda>item.
         if id' item = i
         then (let newQty = max 1 (quantity item + delta)
               in item\<lparr>quantity := newQty, amount := newQty * rate item\<rparr>)
         else item) (items s)\<rparr>"

definition removeItem :: "string \<Rightarrow> Generator \<Rightarrow> Generator" where
  "removeItem i s = s\<lparr>isSaved := False, items := filter (\<lambda>item. id' item \<noteq> i) (items s)\<rparr>"

text \<open>The date stamp is \<open>new Date().toLocaleDateString('en-GB')\<close>, the argument \<open>today\<close>.\<close>

definition resetForm :: "string \<Rightarrow> Generator \<Rightarrow> Generator" where
  "resetForm today s =
     s\<lparr>items := [], selectedCustomer := None, customerName := [], customerCity := [],
       isSaved := False, date := today\<rparr>"

definition handleCustomerSelect :: "string \<Rightarrow> Generator \<Rightarrow> Generator" where
  "handleCustomerSelect custId s =
     (let s1 = s\<lparr>isSaved := False\<rparr>
      in if custId = ''new''
         then s1\<lparr>selectedCustomer := None, customerName := [], customerCity := []\<rparr>
         else case find (\<lambda>c. c_id c = custId) (customers s) of
           Some customer \<Rightarrow>
             s1\<lparr>selectedCustomer := Some customer, customerName := c_name customer,
                customerCity := c_city customer\<rparr>
         | None \<Rightarrow> s1)"

text \<open>The inline \<open>onChange\<close> handlers of the header and of the product picker.\<close>

definition onChange_date :: "string \<Rightarrow> Generator \<Rightarrow> Generator" where
  "onChange_date v s = s\<lparr>date := v\<rparr>"

definition onChange_customerName :: "string \<Rightarrow> Generator \<Rightarrow> Generator" where
  "onChange_customerName v s = s\<lparr>customerName := v, isSaved := False\<rparr>"

definition onChange_customerCity :: "string \<Rightarrow> Generator \<Rightarrow> Generator" where
  "onChange_customerCity v s = s\<lparr>customerCity := v, isSaved := False\<rparr>"

definition onChange_product :: "string \<Rightarrow> Generator \<Rightarrow> Generator" where
  "onChange_product v s = s\<lparr>selectedProductID := v\<rparr>"

definition onChange_qty :: "rat \<Rightarrow> Generator \<Rightarrow> Generator" where
  "onChange_qty v s = s\<lparr>qty := v\<rparr>"

subsection \<open>Saving\<close>

definition invoice_of :: "Generator \<Rightarrow> Invoice" where
  "invoice_of s =
     \<lparr>inv_id = billNo s, inv_date = date s, inv_customerName = customerName s,
      inv_customerCity = customerCity s, inv_items = items s,
      inv_total = grandTotal (settings s) (items s),
      inv_subtotal = Some (subtotal (items s)),
      inv_gstAmount = Some (totalTax (settings s) (items s)),
      inv_gstRate = Some (gstRate (settings s)),
      inv_sgstAmount = Some (sgstAmount (settings s) (items s)),
      inv_cgstAmount = Some (cgstAmount (settings s) (items s))\<rparr>"

text \<open>
  \<open>handleSave\<close> is asynchronous. Its synchronous part runs to the \<open>await\<close>: it returns
  the state of the next render and the invoice handed to \<open>onSaveInvoice\<close>, \<open>None\<close> when
  no call is issued. The part after the \<open>await\<close> runs when the promise settles:
  \<open>handleSave_settled True\<close> when it resolves, \<open>handleSave_settled False\<close> when it rejects.
\<close>

definition handleSave :: "Generator \<Rightarrow> Generator \<times> Invoice option" where
  "handleSave s =
     (if items s = [] then (s, None)
      else (s\<lparr>isSaving := True, isSaved := True\<rparr>, Some (invoice_of s)))"

definition handleSave_settled :: "bool \<Rightarrow> Generator \<Rightarrow> Generator" where
  "handleSave_settled ok s =
     (if ok then s\<lparr>isSaving := False\<rparr> else s\<lparr>isSaved := False, isSaving := False\<rparr>)"

text \<open>
  The parent's \<open>handleSaveInvoice\<close> (App.tsx): when the invoice document is written it
  advances the counter of the settings (a failure of the settings write is caught and
  not rethrown); when the write of the document fails it rethrows, and the settings stay.
\<close>

definition handleSaveInvoice :: "bool \<Rightarrow> BusinessSettings \<Rightarrow> BusinessSettings" where
  "handleSaveInvoice written st =
     (if written then st\<lparr>nextInvoiceNumber := nextInvoiceNumber st + 1\<rparr> else st)"

text \<open>
  The effect that keeps the bill number in step with the counter: it runs after a render
  in which the counter or \<open>isSaved\<close> changed, and writes only while the bill is not saved.
\<close>

definition sync_billNo :: "Generator \<Rightarrow> Generator \<Rightarrow> Generator" where
  "sync_billNo old new =
     (if nextInvoiceNumber (settings old) \<noteq> nextInvoiceNumber (settings new)
         \<or> isSaved old \<noteq> isSaved new
      then (if \<not> isSaved new
            then new\<lparr>billNo := Number_toString (nextInvoiceNumber (settings new))\<rparr> else new)
      else new)"

text \<open>The component as mounted: \<open>useState\<close>'s initial values.\<close>

definition mount :: "Product list \<Rightarrow> Customer list \<Rightarrow> BusinessSettings \<Rightarrow> string \<Rightarrow> Generator" where
  "mount ps cs st today =
     \<lparr>products = ps, customers = cs, settings = st,
      billNo = Number_toString (nextInvoiceNumber st), date = today,
      selectedCustomer = None, customerName = [], customerCity = [], items = [],
      selectedProductID = [], qty = 1, isSaved = False, isSaving = False\<rparr>"

subsection \<open>Events\<close>

text \<open>
  What can happen to the mounted component: the user acts on a control, the pending save
  settles, or the parent passes new settings. A control rendered with \<open>disabled\<close> true
  delivers no event.
\<close>

datatype event =
    Click_add int
  | Click_qty string rat
  | Click_remove string
  | Change_date string
  | Change_customer string
  | Change_customerName string
  | Change_customerCity string
  | Change_product string
  | Change_qty rat
  | Click_save
  | Click_new_bill string
  | Save_settled bool
  | Settings_changed BusinessSettings

text \<open>The \<open>disabled\<close> attribute of each control, negated.\<close>

fun enabled :: "event \<Rightarrow> Generator \<Rightarrow> bool" where
  "enabled Click_save s =
     (\<not> (items s = [] \<or> isSaved s \<or> trim (customerName s) = [] \<or> isSaving s))"
| "enabled (Click_new_bill today) s = True"
| "enabled (Save_settled ok) s = isSaving s"
| "enabled (Settings_changed st) s = True"
| "enabled ev s = (\<not> isSaved s)"

fun handler :: "event \<Rightarrow> Generator \<Rightarrow> Generator" where
  "handler (Click_add now) s = addItem now s"
| "handler (Click_qty i delta) s = updateItemQty i delta s"
| "handler (Click_remove i) s = removeItem i s"
| "handler (Change_date v) s = onChange_date v s"
| "handler (Change_customer custId) s = handleCustomerSelect custId s"
| "handler (Change_customerName v) s = onChange_customerName v s"
| "handler (Change_customerCity v) s = onChange_customerCity v s"
| "handler (Change_product v) s = onChange_product v s"
| "handler (Change_qty v) s = onChange_qty v s"
| "handler Click_save s = fst (handleSave s)"
| "handler (Click_new_bill today) s = resetForm today s"
| "handler (Save_settled ok) s =
     handleSave_settled ok (s\<lparr>settings := handleSaveInvoice ok (settings s)\<rparr>)"
| "handler (Settings_changed st) s = s\<lparr>settings := st\<rparr>"

definition step :: "event \<Rightarrow> Generator \<Rightarrow> Generator" where
  "step ev s = (if enabled ev s then sync_billNo s (handler ev s) else s)"

definition run :: "event list \<Rightarrow> Generator \<Rightarrow> Generator" where
  "run evs s = foldl (\<lambda>s ev. step ev s) s evs"

text \<open>The events that edit the cart: its lines and its header.\<close>

fun is_edit :: "event \<Rightarrow> bool" where
  "is_edit (Click_add now) = True"
| "is_edit (Click_qty i delta) = True"
| "is_edit (Click_remove i) = True"
| "is_edit (Change_date v) = True"
| "is_edit (Change_customer custId) = True"
| "is_edit (Change_customerName v) = True"
| "is_edit (Change_customerCity v) = True"
| "is_edit ev = False"

text \<open>The cart proper: the lines and the header of the bill being composed.\<close>

definition cart_of :: "Generator \<Rightarrow> InvoiceItem list \<times> string \<times> string \<times> string \<times> string" where
  "cart_of s = (items s, customerName s, customerCity s, date s, billNo s)"

text \<open>While the bill is not saved, the bill number shown is the counter of the settings.\<close>

definition billNo_synced :: "Generator \<Rightarrow> bool" where
  "billNo_synced s =
     (\<not> isSaved s \<longrightarrow> billNo s = Number_toString (nextInvoiceNumber (settings s)))"

section \<open>Example data\<close>

definition rice :: InvoiceItem where
  "rice = \<lparr>id' = ''1700000000001'', productId = ''p1'', name = ''Rice'', quantity = 3,
     unit = ''bag'', rate = 85 / 2, amount = 255 / 2, packing = Some ''1 kg''\<rparr>"

definition salt :: InvoiceItem where
  "salt = \<lparr>id' = ''1700000000002'', productId = ''p2'', name = ''Salt'', quantity = 1,
     unit = ''pcs'', rate = 20, amount = 20, packing = Some ''500 gm''\<rparr>"

definition gst5 :: BusinessSettings where
  "gst5 = \<lparr>nextInvoiceNumber = 7, enableGst = True, defaultGstRate = Some 5\<rparr>"

definition catalog :: "Product list" where
  "catalog =
     [\<lparr>p_id = ''p1'', p_name = ''Rice'', p_rate = 85 / 2, p_unit = ''bag'', p_packing = Some ''1 kg''\<rparr>,
      \<lparr>p_id = ''p2'', p_name = ''Salt'', p_rate = 20, p_unit = ''pcs'', p_packing = Some ''500 gm''\<rparr>]"

definition cart_rice :: Generator where
  "cart_rice = (mount catalog [] gst5 ''03/11/2026'')
     \<lparr>items := [rice], selectedProductID := ''p1'', qty := 2, customerName := ''Asha''\<rparr>"

definition cart_salt :: Generator where
  "cart_salt = cart_rice\<lparr>selectedProductID := ''p2''\<rparr>"

definition cart_saving :: Generator where
  "cart_saving = cart_rice\<lparr>isSaving := True, isSaved := True\<rparr>"

definition composed :: Generator where
  "composed = run [Change_customerName ''Asha'', Change_product ''p2'', Change_qty 2,
                   Click_add 1700000000009]
                (mount catalog [] gst5 ''03/11/2026'')"

definition bill :: "string \<Rightarrow> string \<Rightarrow> string \<Rightarrow> Invoice" where
  "bill i d n =
     \<lparr>inv_id = i, inv_date = d, inv_customerName = n, inv_customerCity = ''Pune'',
      inv_items = [], inv_total = 100, inv_subtotal = None, inv_gstAmount = None,
      inv_gstRate = None, inv_sgstAmount = None, inv_cgstAmount = None\<rparr>"


definition sale :: Invoice where
  "sale = (bill ''7'' ''03/11/2026'' (''Asha '' @ [CHR 0x22] @ ''A1'' @ [CHR 0x22] @ '', Pune''))
     \<lparr>inv_items := [rice, salt\<lparr>packing := None\<rparr>], inv_total := 155\<rparr>"

definition two_line_name :: Invoice where
  "two_line_name = bill ''8'' ''03/11/2026'' (''Asha'' @ [CHR 0x0A] @ ''Traders'')"

section \<open>Properties of the calculator\<close>










text \<open>
  Claim C10. For every list of line items and every settings, whatever the rate, the two
  tax components are equal, in the generator and in the template: both are the same
  rounded expression.
\<close>

theorem tax_components_equal:
  "sgstAmount st its = cgstAmount st its \<and> calcSgst st pr its = calcCgst st pr its"
  by (simp add: sgstAmount_def cgstAmount_def calcSgst_def calcCgst_def)

section \<open>Evaluating the printer\<close>

lemma nat_digits_lt10: "n < 10 \<Longrightarrow> nat_digits n = [digit_char n]"
  by (simp add: nat_digits.simps)

lemma nat_digits_ge10:
  "10 \<le> n \<Longrightarrow> nat_digits n = nat_digits (n div 10) @ [digit_char (n mod 10)]"
  by (subst nat_digits.simps) simp

lemmas Number_toString_eval =
  Number_toString_def nat_toString_def nat_digits_lt10 nat_digits_ge10 digit_char_def
  exp_notation_def strip_zeros_def

section \<open>Properties of the cart manager\<close>

lemma findIndex_Some_iff:
  "findIndex P xs = Some k \<longleftrightarrow> k < length xs \<and> P (xs ! k) \<and> (\<forall>j<k. \<not> P (xs ! j))"
proof (induction xs arbitrary: k)
  case Nil
  then show ?case by simp
next
  case (Cons x xs)
  show ?case
  proof (cases "P x")
    case True
    then show ?thesis by (cases k) auto
  next
    case False
    show ?thesis
    proof (cases k)
      case 0
      with False show ?thesis by (auto split: option.splits)
    next
      case (Suc m)
      have "(\<forall>j<Suc m. \<not> P ((x # xs) ! j)) \<longleftrightarrow> (\<forall>j<m. \<not> P (xs ! j))"
        using False by (auto simp: less_Suc_eq_0_disj)
      with False Suc Cons.IH [of m] show ?thesis
        by (auto split: option.splits)
    qed
  qed
qed

lemma findIndex_None_iff: "findIndex P xs = None \<longleftrightarrow> (\<forall>x \<in> set xs. \<not> P x)"
  by (induction xs) (auto split: option.splits)

lemma find_Some_id: "find (\<lambda>p. p_id p = pid) ps = Some product \<Longrightarrow> p_id product = pid"
  by (auto simp: find_Some_iff)

lemma addItem_Some:
  assumes "selectedProductID s = pid" "pid \<noteq> []"
    and "find (\<lambda>p. p_id p = pid) (products s) = Some product"
    and "findIndex (\<lambda>item. productId item = pid) (items s) = Some k"
  shows "items (addItem now s) =
     (items s)[k := (items s ! k)\<lparr>quantity := quantity (items s ! k) + qty s,
                   amount := (quantity (items s ! k) + qty s) * rate (items s ! k)\<rparr>]"
  using assms find_Some_id [OF assms(3)] by (simp add: addItem_def Let_def)

lemma addItem_None:
  assumes "selectedProductID s = pid" "pid \<noteq> []"
    and "find (\<lambda>p. p_id p = pid) (products s) = Some product"
    and "findIndex (\<lambda>item. productId item = pid) (items s) = None"
  shows "items (addItem now s) = items s @
     [\<lparr>id' = Number_toString now, productId = pid, name = p_name product,
       quantity = qty s, unit = p_unit product, rate = p_rate product,
       amount = qty s * p_rate product, packing = p_packing product\<rparr>]"
  using assms find_Some_id [OF assms(3)] by (simp add: addItem_def Let_def)

lemma map_productId_update:
  "k < length xs \<Longrightarrow> productId y = productId (xs ! k) \<Longrightarrow>
   map productId (xs[k := y]) = map productId xs"
  by (simp add: map_update list_update_same_conv)

text \<open>
  Claim C5. With a product of the catalog selected, \<open>addItem\<close> merges into the first line
  that references the product when there is one: the quantity of that line becomes the
  old quantity plus the added one, its rate stays, its amount is the new quantity times
  that rate, and the lines keep their number and their product ids. When no line
  references the product it appends one line that snapshots the product's name, rate,
  unit and packing. A cart with one line per product keeps one line per product.
\<close>

theorem addItem_merges_or_appends:
  assumes "selectedProductID s = pid" and "pid \<noteq> []"
    and "find (\<lambda>p. p_id p = pid) (products s) = Some product"
  shows "(k < length (items s) \<and> productId (items s ! k) = pid
              \<and> (\<forall>j<k. productId (items s ! j) \<noteq> pid) \<longrightarrow>
            items (addItem now s) =
              (items s)[k := (items s ! k)\<lparr>quantity := quantity (items s ! k) + qty s,
                   amount := (quantity (items s ! k) + qty s) * rate (items s ! k)\<rparr>]
          \<and> length (items (addItem now s)) = length (items s)
          \<and> quantity (items (addItem now s) ! k) = quantity (items s ! k) + qty s
          \<and> rate (items (addItem now s) ! k) = rate (items s ! k)
          \<and> amount (items (addItem now s) ! k)
              = quantity (items (addItem now s) ! k) * rate (items (addItem now s) ! k)
          \<and> map productId (items (addItem now s)) = map productId (items s))
      \<and> ((\<forall>it \<in> set (items s). productId it \<noteq> pid) \<longrightarrow>
            items (addItem now s) = items s @
              [\<lparr>id' = Number_toString now, productId = pid, name = p_name product,
                quantity = qty s, unit = p_unit product, rate = p_rate product,
                amount = qty s * p_rate product, packing = p_packing product\<rparr>])
      \<and> (distinct (map productId (items s)) \<longrightarrow>
            distinct (map productId (items (addItem now s))))"
proof -
  let ?P = "\<lambda>item. productId item = pid"
  have merge: "items (addItem now s) =
      (items s)[k := (items s ! k)\<lparr>quantity := quantity (items s ! k) + qty s,
                   amount := (quantity (items s ! k) + qty s) * rate (items s ! k)\<rparr>]
    \<and> length (items (addItem now s)) = length (items s)
    \<and> quantity (items (addItem now s) ! k) = quantity (items s ! k) + qty s
    \<and> rate (items (addItem now s) ! k) = rate (items s ! k)
    \<and> amount (items (addItem now s) ! k)
        = quantity (items (addItem now s) ! k) * rate (items (addItem now s) ! k)
    \<and> map productId (items (addItem now s)) = map productId (items s)"
    if k: "k < length (items s) \<and> productId (items s ! k) = pid
              \<and> (\<forall>j<k. productId (items s ! j) \<noteq> pid)" for k
  proof -
    from k have "findIndex ?P (items s) = Some k"
      by (simp add: findIndex_Some_iff)
    from addItem_Some [OF assms this] k show ?thesis
      by (simp add: map_productId_update)
  qed
  have app: "items (addItem now s) = items s @
      [\<lparr>id' = Number_toString now, productId = pid, name = p_name product,
        quantity = qty s, unit = p_unit product, rate = p_rate product,
        amount = qty s * p_rate product, packing = p_packing product\<rparr>]"
    if "\<forall>it \<in> set (items s). productId it \<noteq> pid"
  proof -
    from that have "findIndex ?P (items s) = None"
      by (simp add: findIndex_None_iff)
    from addItem_None [OF assms this] show ?thesis .
  qed
  have dist: "distinct (map productId (items (addItem now s)))"
    if d: "distinct (map productId (items s))"
  proof (cases "findIndex ?P (items s)")
    case None
    then have no: "\<forall>it \<in> set (items s). productId it \<noteq> pid"
      by (simp add: findIndex_None_iff)
    with app d show ?thesis by auto
  next
    case (Some m)
    then have "m < length (items s) \<and> productId (items s ! m) = pid
              \<and> (\<forall>j<m. productId (items s ! j) \<noteq> pid)"
      by (simp add: findIndex_Some_iff)
    from merge [OF this]
    have "map productId (items (addItem now s)) = map productId (items s)"
      by blast
    with d show ?thesis by simp
  qed
  from merge [of k] app dist show ?thesis by blast
qed

theorem addItem_merges_or_appends_witness:
  "items (addItem 1700000000009 cart_rice) = [rice\<lparr>quantity := 5, amount := 425 / 2\<rparr>]
   \<and> items (addItem 1700000000009 cart_salt) =
       [rice, \<lparr>id' = ''1700000000009'', productId = ''p2'', name = ''Salt'', quantity = 2,
               unit = ''pcs'', rate = 20, amount = 40, packing = Some ''500 gm''\<rparr>]
   \<and> distinct (map productId (items (addItem 1700000000009 cart_salt)))"
proof -
  have r1: "selectedProductID cart_rice = ''p1''"
    by (simp add: cart_rice_def)
  have r2: "find (\<lambda>p. p_id p = ''p1'') (products cart_rice) = Some (hd catalog)"
    by (simp add: cart_rice_def mount_def catalog_def)
  have s1: "selectedProductID cart_salt = ''p2''"
    by (simp add: cart_salt_def)
  have s2: "find (\<lambda>p. p_id p = ''p2'') (products cart_salt) = Some (catalog ! 1)"
    by (simp add: cart_salt_def cart_rice_def mount_def catalog_def)
  have ne: "''p1'' \<noteq> []" "''p2'' \<noteq> []"
    by simp_all
  have n: "Number_toString 1700000000009 = ''1700000000009''"
    by (simp add: Number_toString_eval)
  have icr: "items cart_rice = [rice]" "qty cart_rice = 2"
    by (simp_all add: cart_rice_def)
  have ics: "items cart_salt = [rice]" "qty cart_salt = 2"
    by (simp_all add: cart_salt_def cart_rice_def)
  have pre_r: "0 < length (items cart_rice) \<and> productId (items cart_rice ! 0) = ''p1''
      \<and> (\<forall>j<0. productId (items cart_rice ! j) \<noteq> ''p1'')"
    by (simp add: icr rice_def)
  have pre_s: "\<forall>it \<in> set (items cart_salt). productId it \<noteq> ''p2''"
    by (simp add: ics rice_def)
  have pre_d: "distinct (map productId (items cart_salt))"
    by (simp add: ics)
  from addItem_merges_or_appends [OF r1 ne(1) r2, of 0 1700000000009] pre_r
  have a: "items (addItem 1700000000009 cart_rice) =
      (items cart_rice)[0 := (items cart_rice ! 0)\<lparr>quantity := quantity (items cart_rice ! 0) + qty cart_rice,
         amount := (quantity (items cart_rice ! 0) + qty cart_rice) * rate (items cart_rice ! 0)\<rparr>]"
    by blast
  from addItem_merges_or_appends [OF s1 ne(2) s2, of 0 1700000000009] pre_s pre_d
  have b: "items (addItem 1700000000009 cart_salt) = items cart_salt @
      [\<lparr>id' = Number_toString 1700000000009, productId = ''p2'', name = p_name (catalog ! 1),
        quantity = qty cart_salt, unit = p_unit (catalog ! 1), rate = p_rate (catalog ! 1),
        amount = qty cart_salt * p_rate (catalog ! 1), packing = p_packing (catalog ! 1)\<rparr>]"
    and c: "distinct (map productId (items (addItem 1700000000009 cart_salt)))"
    by blast+
  have a': "items (addItem 1700000000009 cart_rice) = [rice\<lparr>quantity := 5, amount := 425 / 2\<rparr>]"
    unfolding a icr by (simp add: rice_def)
  have b': "items (addItem 1700000000009 cart_salt) =
       [rice, \<lparr>id' = ''1700000000009'', productId = ''p2'', name = ''Salt'', quantity = 2,
               unit = ''pcs'', rate = 20, amount = 40, packing = Some ''500 gm''\<rparr>]"
    unfolding b ics n by (simp add: catalog_def)
  from a' b' c show ?thesis by blast
qed

lemma updateItemQty_nth:
  assumes "j < length (items s)"
  shows "items (updateItemQty i d s) ! j =
    (if id' (items s ! j) = i
     then (items s ! j)\<lparr>quantity := max 1 (quantity (items s ! j) + d),
            amount := max 1 (quantity (items s ! j) + d) * rate (items s ! j)\<rparr>
     else items s ! j)"
  using assms by (simp add: updateItemQty_def Let_def)

lemma updateItemQty_length: "length (items (updateItemQty i d s)) = length (items s)"
  by (simp add: updateItemQty_def)

lemma updateItemQty_id:
  "j < length (items s) \<Longrightarrow> id' (items (updateItemQty i d s) ! j) = id' (items s ! j)"
  by (simp add: updateItemQty_nth)

lemma updateItemQty_many_length:
  "length (items (foldl (\<lambda>s d. updateItemQty i d s) s ds)) = length (items s)"
  by (induction ds arbitrary: s) (simp_all add: updateItemQty_length)

lemma updateItemQty_many_id:
  "j < length (items s) \<Longrightarrow>
   id' (items (foldl (\<lambda>s d. updateItemQty i d s) s ds) ! j) = id' (items s ! j)"
  by (induction ds arbitrary: s) (simp_all add: updateItemQty_length updateItemQty_id)

lemma updateItemQty_many_ge1:
  assumes "j < length (items s)" and "id' (items s ! j) = i" and "ds \<noteq> []"
  shows "1 \<le> quantity (items (foldl (\<lambda>s d. updateItemQty i d s) s ds) ! j)"
proof -
  from \<open>ds \<noteq> []\<close> obtain ds' d where ds: "ds = ds' @ [d]"
    by (cases ds rule: rev_cases) auto
  let ?t = "foldl (\<lambda>s d. updateItemQty i d s) s ds'"
  have "j < length (items ?t)" and "id' (items ?t ! j) = i"
    using assms by (simp_all add: updateItemQty_many_length updateItemQty_many_id)
  then show ?thesis
    by (simp add: ds updateItemQty_nth)
qed

lemma updateItemQty_many_stays1:
  assumes "j < length (items s)" and "id' (items s ! j) = i"
    and "quantity (items s ! j) = 1" and "\<forall>d \<in> set ds. d \<le> 0"
  shows "quantity (items (foldl (\<lambda>s d. updateItemQty i d s) s ds) ! j) = 1"
  using assms
proof (induction ds arbitrary: s)
  case Nil
  then show ?case by simp
next
  case (Cons d ds)
  let ?t = "updateItemQty i d s"
  have "j < length (items ?t)" "id' (items ?t ! j) = i" "quantity (items ?t ! j) = 1"
    using Cons.prems by (simp_all add: updateItemQty_length updateItemQty_nth)
  with Cons.IH [of ?t] Cons.prems(4) show ?case by simp
qed

text \<open>
  Claim C4. \<open>updateItemQty\<close> keeps the number of lines. Every line with the given id
  gets the quantity \<open>max 1 (old quantity + delta)\<close>, for any delta, keeps its rate and
  gets the amount new quantity times rate; its quantity is at least 1, it stays 1 when
  it was 1 and the delta is not positive, and the same holds after any number of calls.
  A line with another id is unchanged.
\<close>

theorem updateItemQty_floor:
  "length (items (updateItemQty i d s)) = length (items s)
   \<and> (j < length (items s) \<and> id' (items s ! j) = i \<longrightarrow>
        quantity (items (updateItemQty i d s) ! j) = max 1 (quantity (items s ! j) + d)
      \<and> rate (items (updateItemQty i d s) ! j) = rate (items s ! j)
      \<and> amount (items (updateItemQty i d s) ! j)
          = quantity (items (updateItemQty i d s) ! j) * rate (items (updateItemQty i d s) ! j)
      \<and> 1 \<le> quantity (items (updateItemQty i d s) ! j)
      \<and> (quantity (items s ! j) = 1 \<and> d \<le> 0 \<longrightarrow>
           quantity (items (updateItemQty i d s) ! j) = 1)
      \<and> (ds \<noteq> [] \<longrightarrow>
           1 \<le> quantity (items (foldl (\<lambda>s d. updateItemQty i d s) s ds) ! j))
      \<and> (quantity (items s ! j) = 1 \<and> (\<forall>d \<in> set ds. d \<le> 0) \<longrightarrow>
           quantity (items (foldl (\<lambda>s d. updateItemQty i d s) s ds) ! j) = 1))
   \<and> (j < length (items s) \<and> id' (items s ! j) \<noteq> i \<longrightarrow>
        items (updateItemQty i d s) ! j = items s ! j)"
  using updateItemQty_many_ge1 [of j s i ds] updateItemQty_many_stays1 [of j s i ds]
  by (simp add: updateItemQty_length updateItemQty_nth)

theorem updateItemQty_floor_witness:
  "quantity (items (updateItemQty ''1700000000001'' (- 7) cart_rice) ! 0) = 1
   \<and> amount (items (updateItemQty ''1700000000001'' (- 7) cart_rice) ! 0) = 85 / 2
   \<and> quantity (items (updateItemQty ''1700000000001'' 2 cart_rice) ! 0) = 5
   \<and> quantity (items (updateItemQty ''1700000000001'' (- 1)
        (updateItemQty ''1700000000001'' (- 7) cart_rice)) ! 0) = 1
   \<and> quantity (items (foldl (\<lambda>s d. updateItemQty ''1700000000001'' d s)
        (updateItemQty ''1700000000001'' (- 7) cart_rice) [- 1, - 1, - 1, - 1, - 1]) ! 0) = 1
   \<and> items (updateItemQty ''other'' (- 7) cart_rice) ! 0 = rice"
proof -
  let ?one = "updateItemQty ''1700000000001'' (- 7) cart_rice"
  have c: "items cart_rice = [rice]"
    by (simp add: cart_rice_def)
  have pre: "0 < length (items cart_rice) \<and> id' (items cart_rice ! 0) = ''1700000000001''"
    "0 < length (items cart_rice) \<and> id' (items cart_rice ! 0) \<noteq> ''other''"
    by (simp_all add: c rice_def)
  have q: "quantity (items cart_rice ! 0) = 3" "rate (items cart_rice ! 0) = 85 / 2"
    by (simp_all add: c rice_def)
  from updateItemQty_floor [of "''1700000000001''" "- 7" cart_rice 0 "[]"] pre(1)
  have a: "quantity (items ?one ! 0) = max 1 (quantity (items cart_rice ! 0) + (- 7))"
    "rate (items ?one ! 0) = rate (items cart_rice ! 0)"
    "amount (items ?one ! 0) = quantity (items ?one ! 0) * rate (items ?one ! 0)"
    by blast+
  from updateItemQty_floor [of "''1700000000001''" 2 cart_rice 0 "[]"] pre(1)
  have b: "quantity (items (updateItemQty ''1700000000001'' 2 cart_rice) ! 0)
      = max 1 (quantity (items cart_rice ! 0) + 2)"
    by blast
  have one: "quantity (items ?one ! 0) = 1"
    using a(1) q by simp
  have pre1: "0 < length (items ?one) \<and> id' (items ?one ! 0) = ''1700000000001''"
    using pre(1) by (simp add: updateItemQty_length updateItemQty_id)
  have neg: "\<forall>d \<in> set [- 1, - 1, - 1, - 1, - 1 :: rat]. d \<le> 0" "(- 1 :: rat) \<le> 0"
    by simp_all
  from updateItemQty_floor [of "''1700000000001''" "- 1" ?one 0 "[- 1, - 1, - 1, - 1, - 1]"]
    pre1 one neg
  have d: "quantity (items (updateItemQty ''1700000000001'' (- 1) ?one) ! 0) = 1"
    "quantity (items (foldl (\<lambda>s d. updateItemQty ''1700000000001'' d s) ?one
        [- 1, - 1, - 1, - 1, - 1]) ! 0) = 1"
    by blast+
  from updateItemQty_floor [of "''other''" "- 7" cart_rice 0 "[]"] pre(2)
  have e: "items (updateItemQty ''other'' (- 7) cart_rice) ! 0 = items cart_rice ! 0"
    by blast
  from a b d e one q c show ?thesis by simp
qed

section \<open>The lock\<close>

lemma addItem_billNo_settings:
  "billNo (addItem now s) = billNo s \<and> settings (addItem now s) = settings s
   \<and> products (addItem now s) = products s \<and> isSaving (addItem now s) = isSaving s"
  by (simp add: addItem_def Let_def split: option.splits)

lemma handler_billNo: "billNo (handler ev s) = billNo s"
  by (cases ev)
    (simp_all add: addItem_billNo_settings updateItemQty_def removeItem_def onChange_date_def
      handleCustomerSelect_def onChange_customerName_def onChange_customerCity_def
      onChange_product_def onChange_qty_def handleSave_def resetForm_def
      handleSave_settled_def Let_def split: option.splits)

lemma step_locked_noop:
  assumes "isSaved s" and "is_edit ev \<or> ev = Change_product v \<or> ev = Change_qty q"
  shows "step ev s = s"
  using assms by (cases ev) (auto simp: step_def)

lemma step_Click_save:
  assumes "enabled Click_save s"
  shows "step Click_save s = s\<lparr>isSaving := True, isSaved := True\<rparr>"
    and "handleSave s = (step Click_save s, Some (invoice_of s))"
  using assms by (simp_all add: step_def handleSave_def sync_billNo_def)

lemma step_keeps_lock:
  assumes "isSaved s" and "\<forall>today. ev \<noteq> Click_new_bill today" and "ev \<noteq> Save_settled False"
  shows "isSaved (step ev s) \<and> cart_of (step ev s) = cart_of s"
proof (cases "enabled ev s")
  case False
  with assms(1) show ?thesis by (simp add: step_def)
next
  case True
  with assms show ?thesis
    by (cases ev) (auto simp: step_def sync_billNo_def handleSave_settled_def cart_of_def)
qed

lemma run_keeps_lock:
  assumes "isSaved s" and "\<forall>ev \<in> set evs. (\<forall>today. ev \<noteq> Click_new_bill today) \<and> ev \<noteq> Save_settled False"
  shows "isSaved (run evs s) \<and> cart_of (run evs s) = cart_of s"
  using assms
proof (induction evs arbitrary: s)
  case Nil
  then show ?case by (simp add: run_def)
next
  case (Cons ev evs)
  from Cons.prems have "isSaved (step ev s) \<and> cart_of (step ev s) = cart_of s"
    by (intro step_keeps_lock) auto
  moreover from this Cons.prems
  have "isSaved (run evs (step ev s)) \<and> cart_of (run evs (step ev s)) = cart_of (step ev s)"
    by (intro Cons.IH) auto
  ultimately show ?case by (simp add: run_def)
qed

lemma run_locked_edits:
  assumes "isSaved s" and "\<forall>ev \<in> set evs. is_edit ev"
  shows "run evs s = s"
  using assms
proof (induction evs arbitrary: s)
  case Nil
  then show ?case by (simp add: run_def)
next
  case (Cons ev evs)
  then have "step ev s = s"
    by (intro step_locked_noop) auto
  with Cons show ?case by (simp add: run_def)
qed

lemma run_append: "run (xs @ ys) s = run ys (run xs s)"
  by (simp add: run_def)

lemma run_Cons: "run (ev # evs) s = run evs (step ev s)"
  by (simp add: run_def)

lemma step_synced: "billNo_synced s \<Longrightarrow> billNo_synced (step ev s)"
  by (auto simp: billNo_synced_def step_def sync_billNo_def handler_billNo)

lemma run_synced: "billNo_synced s \<Longrightarrow> billNo_synced (run evs s)"
  by (induction evs arbitrary: s) (simp_all add: run_Cons step_synced, simp add: run_def)

lemma mount_synced: "billNo_synced (mount ps cs st today)"
  by (simp add: billNo_synced_def mount_def)


lemma step_new_bill:
  "step (Click_new_bill today) s = sync_billNo s (resetForm today s)"
  by (simp add: step_def)

lemma new_bill_then_add:
  assumes "find (\<lambda>p. p_id p = pid) (products s) = Some product" and "pid \<noteq> []"
  shows "items (run [Click_new_bill today, Change_product pid, Click_add now] s) =
     [\<lparr>id' = Number_toString now, productId = pid, name = p_name product,
       quantity = qty s, unit = p_unit product, rate = p_rate product,
       amount = qty s * p_rate product, packing = p_packing product\<rparr>]"
proof -
  let ?s1 = "step (Click_new_bill today) s"
  let ?s2 = "step (Change_product pid) ?s1"
  have s1: "\<not> isSaved ?s1" "items ?s1 = []" "products ?s1 = products s" "qty ?s1 = qty s"
    by (simp_all add: step_def sync_billNo_def resetForm_def)
  then have s2: "\<not> isSaved ?s2" "items ?s2 = []" "products ?s2 = products s" "qty ?s2 = qty s"
    "selectedProductID ?s2 = pid"
    by (simp_all add: step_def sync_billNo_def onChange_product_def)
  have "findIndex (\<lambda>item. productId item = pid) (items ?s2) = None"
    by (simp add: s2)
  from addItem_None [OF s2(5) assms(2) _ this, of product now] assms(1) s2
  have "items (addItem now ?s2) =
     [\<lparr>id' = Number_toString now, productId = pid, name = p_name product,
       quantity = qty s, unit = p_unit product, rate = p_rate product,
       amount = qty s * p_rate product, packing = p_packing product\<rparr>]"
    by simp
  moreover have "step (Click_add now) ?s2 = sync_billNo ?s2 (addItem now ?s2)"
    using s2(1) by (simp add: step_def)
  moreover have "items (sync_billNo ?s2 (addItem now ?s2)) = items (addItem now ?s2)"
    by (simp add: sync_billNo_def)
  ultimately show ?thesis
    by (simp add: run_def)
qed

text \<open>
  Claim C2. The synchronous part of \<open>handleSave\<close> returns the locked state together with
  the invoice it hands to the persistence call: the lock is set in the render in which
  the call is issued, and the cart is unchanged. While the bill is locked every edit
  event (add, adjust, remove, date, customer) and every change of the product picker
  leaves the whole state as it is, since its control is disabled. The lock, the lines,
  the header and the bill number survive every sequence of events without a reset and
  without a failed save, new settings from the parent and the resolution of the save
  included. \<open>New Bill\<close> unlocks, and then selecting a product of the catalog and adding
  it puts its line in the cart.
\<close>

theorem save_locks_cart:
  "(enabled Click_save s \<longrightarrow>
       handleSave s = (step Click_save s, Some (invoice_of s))
     \<and> isSaved (step Click_save s) \<and> cart_of (step Click_save s) = cart_of s)
   \<and> (isSaved s \<and> (is_edit ev \<or> ev = Change_product v \<or> ev = Change_qty q) \<longrightarrow>
        step ev s = s)
   \<and> (isSaved s
        \<and> (\<forall>ev \<in> set evs. (\<forall>today. ev \<noteq> Click_new_bill today) \<and> ev \<noteq> Save_settled False) \<longrightarrow>
        isSaved (run evs s) \<and> cart_of (run evs s) = cart_of s)
   \<and> \<not> isSaved (step (Click_new_bill today) s)
   \<and> (find (\<lambda>p. p_id p = pid) (products s) = Some product \<and> pid \<noteq> [] \<longrightarrow>
        items (run [Click_new_bill today, Change_product pid, Click_add now] s) =
          [\<lparr>id' = Number_toString now, productId = pid, name = p_name product,
            quantity = qty s, unit = p_unit product, rate = p_rate product,
            amount = qty s * p_rate product, packing = p_packing product\<rparr>])"
proof -
  have a: "enabled Click_save s \<Longrightarrow>
       handleSave s = (step Click_save s, Some (invoice_of s))
     \<and> isSaved (step Click_save s) \<and> cart_of (step Click_save s) = cart_of s"
    using step_Click_save [of s] by (simp add: cart_of_def)
  have b: "\<not> isSaved (step (Click_new_bill today) s)"
    by (simp add: step_def sync_billNo_def resetForm_def)
  from a b step_locked_noop [of s ev v q] run_keeps_lock [of s evs]
    new_bill_then_add [of pid s product today now]
  show ?thesis by blast
qed

lemma trim_Asha: "trim ''Asha'' = ''Asha''"
  by (simp add: trim_def is_space_def)

lemma enabled_cart_rice: "enabled Click_save cart_rice"
  by (simp add: cart_rice_def mount_def trim_Asha)

theorem save_locks_cart_witness:
  "enabled Click_save cart_rice
   \<and> step Click_save cart_rice = cart_saving
   \<and> fst (handleSave cart_rice) = cart_saving
   \<and> step (Click_add 1700000000009) cart_saving = cart_saving
   \<and> step (Click_qty ''1700000000001'' 1) cart_saving = cart_saving
   \<and> step (Change_date ''04/11/2026'') cart_saving = cart_saving
   \<and> cart_of (run [Click_remove ''1700000000001'', Save_settled True,
                   Change_customerName ''Ravi''] cart_saving)
       = ([rice], ''Asha'', [], ''03/11/2026'', ''7'')
   \<and> items (run [Click_new_bill ''04/11/2026'', Change_product ''p2'',
                 Click_add 1700000000009] cart_saving)
       = [\<lparr>id' = ''1700000000009'', productId = ''p2'', name = ''Salt'', quantity = 2,
           unit = ''pcs'', rate = 20, amount = 40, packing = Some ''500 gm''\<rparr>]"
proof -
  let ?evs = "[Click_remove ''1700000000001'', Save_settled True, Change_customerName ''Ravi'']"
  have sv: "isSaved cart_saving"
    by (simp add: cart_saving_def)
  have ed: "is_edit (Click_add 1700000000009)" "is_edit (Click_qty ''1700000000001'' 1)"
    "is_edit (Change_date ''04/11/2026'')"
    by simp_all
  have evs: "\<forall>ev \<in> set ?evs. (\<forall>today. ev \<noteq> Click_new_bill today) \<and> ev \<noteq> Save_settled False"
    by simp
  have pr: "find (\<lambda>p. p_id p = ''p2'') (products cart_saving) = Some (catalog ! 1) \<and> ''p2'' \<noteq> []"
    by (simp add: cart_saving_def cart_rice_def mount_def catalog_def)
  have n: "Number_toString 1700000000009 = ''1700000000009''" "Number_toString 7 = ''7''"
    by (simp_all add: Number_toString_eval)
  have c: "cart_of cart_saving = ([rice], ''Asha'', [], ''03/11/2026'', ''7'')"
    by (simp add: cart_of_def cart_saving_def cart_rice_def mount_def gst5_def n)
  have q: "qty cart_saving = 2"
    by (simp add: cart_saving_def cart_rice_def)
  from save_locks_cart [of cart_rice] enabled_cart_rice
  have 1: "handleSave cart_rice = (step Click_save cart_rice, Some (invoice_of cart_rice))"
    by blast
  have 2: "step Click_save cart_rice = cart_saving"
    using 1 enabled_cart_rice by (simp add: handleSave_def cart_saving_def split: if_splits)
  from save_locks_cart [of cart_saving "Click_add 1700000000009"] sv ed(1)
  have 3: "step (Click_add 1700000000009) cart_saving = cart_saving"
    by blast
  from save_locks_cart [of cart_saving "Click_qty ''1700000000001'' 1"] sv ed(2)
  have 4: "step (Click_qty ''1700000000001'' 1) cart_saving = cart_saving"
    by blast
  from save_locks_cart [of cart_saving "Change_date ''04/11/2026''"] sv ed(3)
  have 5: "step (Change_date ''04/11/2026'') cart_saving = cart_saving"
    by blast
  from save_locks_cart [of cart_saving _ _ _ ?evs] sv evs
  have 6: "cart_of (run ?evs cart_saving) = cart_of cart_saving"
    by blast
  from save_locks_cart [of cart_saving _ _ _ _ "''04/11/2026''" "''p2''" "catalog ! 1" 1700000000009] pr
  have 7: "items (run [Click_new_bill ''04/11/2026'', Change_product ''p2'',
                 Click_add 1700000000009] cart_saving) =
     [\<lparr>id' = Number_toString 1700000000009, productId = ''p2'', name = p_name (catalog ! 1),
       quantity = qty cart_saving, unit = p_unit (catalog ! 1), rate = p_rate (catalog ! 1),
       amount = qty cart_saving * p_rate (catalog ! 1), packing = p_packing (catalog ! 1)\<rparr>]"
    by blast
  have 8: "fst (handleSave cart_rice) = cart_saving"
    using 1 2 by simp
  have 9: "items (run [Click_new_bill ''04/11/2026'', Change_product ''p2'',
                 Click_add 1700000000009] cart_saving)
       = [\<lparr>id' = ''1700000000009'', productId = ''p2'', name = ''Salt'', quantity = 2,
           unit = ''pcs'', rate = 20, amount = 40, packing = Some ''500 gm''\<rparr>]"
    unfolding 7 n q by (simp add: catalog_def)
  from enabled_cart_rice 2 3 4 5 6 8 9 c show ?thesis by simp
qed

text \<open>
  The handlers themselves do not look at the lock: called on a locked cart, \<open>addItem\<close>
  would add the line and unlock. What rejects the operation is the disabled control.
\<close>

lemma addItem_unguarded:
  "isSaved cart_saving \<and> \<not> isSaved (addItem 1700000000009 cart_saving)
   \<and> length (items (addItem 1700000000009 (cart_saving\<lparr>selectedProductID := ''p2''\<rparr>))) = 2"
  by (simp add: cart_saving_def cart_rice_def mount_def catalog_def addItem_def rice_def)

text \<open>
  Claim C3. In every state the mounted component can reach in which \<open>Save\<close> is enabled,
  clicking \<open>Save\<close> locks the cart, and when the persistence call then fails, whatever
  edits were attempted in between, the component is back in the state it had before the
  click: not saved, not saving, with the same lines, customer name and city, date and
  bill number.
\<close>

theorem save_failure_restores_cart:
  assumes "s = run evs0 (mount ps cs st today)" and "enabled Click_save s"
    and "\<forall>ev \<in> set evs. is_edit ev"
  shows "isSaved (run (Click_save # evs) s)
    \<and> run (Click_save # evs @ [Save_settled False]) s = s
    \<and> \<not> isSaved s \<and> \<not> isSaving s"
proof -
  let ?l = "s\<lparr>isSaving := True, isSaved := True\<rparr>"
  from assms(2) have free: "\<not> isSaved s" "\<not> isSaving s"
    by simp_all
  have "billNo_synced s"
    unfolding assms(1) by (rule run_synced) (rule mount_synced)
  with free have bill: "billNo s = Number_toString (nextInvoiceNumber (settings s))"
    by (simp add: billNo_synced_def)
  have locked: "run (Click_save # evs) s = ?l"
    using run_locked_edits [of ?l evs] assms(3) step_Click_save(1) [OF assms(2)]
    by (simp add: run_Cons)
  have "step (Save_settled False) ?l = s"
    using free bill
    by (simp add: step_def sync_billNo_def handleSave_settled_def handleSaveInvoice_def)
  with locked have "run (Click_save # evs @ [Save_settled False]) s = s"
    using run_append [of "Click_save # evs" "[Save_settled False]" s]
    by (simp add: run_def)
  with locked free show ?thesis by simp
qed

lemma composed_eq:
  "composed = (mount catalog [] gst5 ''03/11/2026'')
     \<lparr>customerName := ''Asha'',
      items := [\<lparr>id' = ''1700000000009'', productId = ''p2'', name = ''Salt'', quantity = 2,
           unit = ''pcs'', rate = 20, amount = 40, packing = Some ''500 gm''\<rparr>]\<rparr>"
  by (simp add: composed_def run_def step_def sync_billNo_def onChange_customerName_def
      onChange_product_def onChange_qty_def addItem_def mount_def catalog_def
      Number_toString_eval)

theorem save_failure_restores_cart_witness:
  "enabled Click_save composed
   \<and> isSaved (run [Click_save, Click_remove ''1700000000009'', Change_date ''01/01/2027''] composed)
   \<and> run [Click_save, Click_remove ''1700000000009'', Change_date ''01/01/2027'',
           Save_settled False] composed = composed
   \<and> cart_of composed =
       ([\<lparr>id' = ''1700000000009'', productId = ''p2'', name = ''Salt'', quantity = 2,
           unit = ''pcs'', rate = 20, amount = 40, packing = Some ''500 gm''\<rparr>],
        ''Asha'', [], ''03/11/2026'', ''7'')"
proof -
  have en: "enabled Click_save composed"
    by (simp add: composed_eq mount_def trim_Asha)
  have ed: "\<forall>ev \<in> set [Click_remove ''1700000000009'', Change_date ''01/01/2027'']. is_edit ev"
    by simp
  have c: "cart_of composed =
       ([\<lparr>id' = ''1700000000009'', productId = ''p2'', name = ''Salt'', quantity = 2,
           unit = ''pcs'', rate = 20, amount = 40, packing = Some ''500 gm''\<rparr>],
        ''Asha'', [], ''03/11/2026'', ''7'')"
    by (simp add: composed_eq cart_of_def mount_def gst5_def Number_toString_eval)
  from save_failure_restores_cart [OF composed_def en ed] en c
  show ?thesis by simp
qed

section \<open>Character classes\<close>

lemma is_digit_iff: "is_digit c \<longleftrightarrow> c \<in> set ''0123456789''"
  by (simp add: is_digit_def char_digit_def findIndex_None_iff)



section \<open>Properties of the amount in words\<close>

lemmas numberToWords_eval =
  numberToWords_def inWords_def group_text_def Number_toString_eval match_groups_def slice_last9_def
  group_words_def tens_units_def tbl_at_def char_at_def Number_opt_def str_of_def
  Number_digits_def is_digit_def char_digit_def a_words_def b_words_def Let_def

lemma nat_digits_length: "10 ^ k \<le> n \<Longrightarrow> k < length (nat_digits n)"
proof (induction k arbitrary: n)
  case 0
  then show ?case
    by (cases "n < 10") (simp_all add: nat_digits_lt10 nat_digits_ge10)
next
  case (Suc k)
  then have "10 \<le> n"
    by (metis le_trans one_le_numeral one_le_power power_one_right power_increasing le_add1 plus_1_eq_Suc)
  moreover from Suc.prems have "10 ^ k \<le> n div 10"
    by (simp add: less_eq_div_iff_mult_less_eq mult.commute)
  ultimately show ?case
    using Suc.IH [of "n div 10"] by (simp add: nat_digits_ge10)
qed

lemma inWords_overflow:
  assumes "10 ^ 9 \<le> n" and "n < 10 ^ 21"
  shows "inWords n = ''overflow''"
proof -
  from assms have "Number_toString n = nat_digits (nat n)"
    by (simp add: Number_toString_def nat_toString_def nat_less_iff)
  moreover from assms(1) have "(10::nat) ^ 9 \<le> nat n"
    by (simp add: le_nat_iff)
  then have "9 < length (nat_digits (nat n))"
    by (rule nat_digits_length)
  ultimately show ?thesis
    by (simp add: inWords_def)
qed

lemma digit_char_is_digit: "d < 10 \<Longrightarrow> is_digit (digit_char d)"
  unfolding is_digit_iff digit_char_def by (rule nth_mem) simp

lemma nat_digits_digits: "list_all is_digit (nat_digits n)"
proof (induction n rule: nat_digits.induct)
  case (1 n)
  show ?case
  proof (cases "n < 10")
    case True
    then show ?thesis
      by (simp add: nat_digits_lt10 digit_char_is_digit)
  next
    case False
    with 1 show ?thesis
      by (simp add: nat_digits_ge10 digit_char_is_digit)
  qed
qed

lemma nat_digits_length_le: "n < 10 ^ Suc k \<Longrightarrow> length (nat_digits n) \<le> Suc k"
proof (induction k arbitrary: n)
  case 0
  then show ?case by (simp add: nat_digits_lt10)
next
  case (Suc k)
  show ?case
  proof (cases "n < 10")
    case True
    then show ?thesis by (simp add: nat_digits_lt10)
  next
    case False
    from Suc.prems have "n div 10 < 10 ^ Suc k"
      by (simp add: less_mult_imp_div_less mult.commute)
    from Suc.IH [OF this] False show ?thesis
      by (simp add: nat_digits_ge10)
  qed
qed

lemma digit_char_zero: "d < 10 \<Longrightarrow> digit_char d = CHR ''0'' \<Longrightarrow> d = 0"
proof -
  assume d: "d < 10" and z: "digit_char d = CHR ''0''"
  have "distinct ''0123456789''"
    by simp
  moreover from z have "''0123456789'' ! d = ''0123456789'' ! 0"
    by (simp add: digit_char_def)
  ultimately show "d = 0"
    using d nth_eq_iff_index_eq [of "''0123456789''" d 0] by simp
qed

lemma nat_digits_hd: "0 < n \<Longrightarrow> hd (nat_digits n) \<noteq> CHR ''0''"
proof (induction n rule: nat_digits.induct)
  case (1 n)
  show ?case
  proof (cases "n < 10")
    case True
    with "1.prems" show ?thesis
      using digit_char_zero [of n] by (auto simp: nat_digits_lt10)
  next
    case False
    then have "0 < n div 10"
      by (simp add: div_greater_zero_iff)
    with 1 False have "hd (nat_digits (n div 10)) \<noteq> CHR ''0''"
      by simp
    moreover have "nat_digits (n div 10) \<noteq> []"
      by (subst nat_digits.simps) simp
    ultimately show ?thesis
      using False by (simp add: nat_digits_ge10)
  qed
qed

lemma nat_digits_nonempty: "nat_digits n \<noteq> []"
  by (subst nat_digits.simps) simp

lemma char_digit_zero: "char_digit c = Some 0 \<Longrightarrow> c = CHR ''0''"
  by (simp add: char_digit_def split: if_splits option.splits)

lemma digits_value_zero:
  "digits_value g acc = Some 0 \<Longrightarrow> acc = 0 \<and> list_all (\<lambda>c. c = CHR ''0'') g"
proof (induction g arbitrary: acc)
  case Nil
  then show ?case by simp
next
  case (Cons c g)
  then obtain d where d: "char_digit c = Some d" and v: "digits_value g (10 * acc + d) = Some 0"
    by (auto split: option.splits)
  from Cons.IH [OF v] have "10 * acc + d = 0" and "list_all (\<lambda>c. c = CHR ''0'') g"
    by simp_all
  with d show ?case
    by (simp add: char_digit_zero)
qed

lemma group_words_nonempty: "group_words g \<noteq> []"
  by (simp add: group_words_def tens_units_def split: option.splits)

text \<open>
  In the range of the conversion the printed number has at most nine digits, the padded
  text matches the pattern, and the words are not empty.
\<close>

lemma inWords_in_range:
  assumes "0 < n" and "n < 10 ^ 9"
  shows "length (Number_toString n) \<le> 9
    \<and> match_groups (slice_last9 (''000000000'' @ Number_toString n)) \<noteq> None
    \<and> inWords n \<noteq> []"
proof -
  define ds where "ds = nat_digits (nat n)"
  define pd where "pd = slice_last9 (''000000000'' @ ds)"
  from assms have m: "0 < nat n" "nat n < 10 ^ Suc 8"
    by (simp_all add: nat_less_iff)
  from m(2) have "nat n < 10 ^ 21"
    by simp
  with assms(1) have str: "Number_toString n = ds"
    by (simp add: Number_toString_def nat_toString_def ds_def)
  have len: "length ds \<le> 9"
    using nat_digits_length_le [OF m(2)] by (simp add: ds_def)
  have ne: "ds \<noteq> []"
    unfolding ds_def by (rule nat_digits_nonempty)
  have z: "''000000000'' = replicate 9 (CHR ''0'')"
    by (simp add: numeral_eq_Suc)
  have "pd = drop (length ds) (replicate 9 (CHR ''0'') @ ds)"
    unfolding pd_def slice_last9_def z by simp
  also have "\<dots> = replicate (9 - length ds) (CHR ''0'') @ ds"
    using len by simp
  finally have p: "pd = replicate (9 - length ds) (CHR ''0'') @ ds" .
  have plen: "length pd = 9"
    using len by (simp add: p)
  have zd: "is_digit (CHR ''0'')"
    by (simp add: is_digit_iff)
  have pdig: "list_all is_digit pd"
    using nat_digits_digits [of "nat n"] zd by (auto simp: p ds_def list_all_iff)
  define gs where "gs = [take 2 pd, take 2 (drop 2 pd), take 2 (drop 4 pd), take 1 (drop 6 pd),
                 take 2 (drop 7 pd)]"
  from plen pdig have gs: "match_groups pd = Some gs"
    by (simp add: match_groups_def gs_def)
  have "take 2 pd @ take 2 (drop 2 pd) = take 4 pd"
    using take_add [of 2 2 pd] by simp
  moreover have "take 4 pd @ take 2 (drop 4 pd) = take 6 pd"
    using take_add [of 4 2 pd] by simp
  moreover have "take 6 pd @ take 1 (drop 6 pd) = take 7 pd"
    using take_add [of 6 1 pd] by simp
  moreover have "take 7 pd @ take 2 (drop 7 pd) = take 9 pd"
    using take_add [of 7 2 pd] by simp
  ultimately have "concat gs = take 9 pd"
    by (simp add: gs_def) (metis append.assoc)
  with plen have cover: "concat gs = pd"
    by simp
  have "hd ds \<in> set pd" "hd ds \<noteq> CHR ''0''"
    using ne nat_digits_hd [OF m(1)] by (simp_all add: p ds_def)
  then have "\<not> list_all (\<lambda>c. c = CHR ''0'') (concat gs)"
    unfolding cover by (auto simp: list_all_iff)
  then obtain g where g: "g \<in> set gs" "\<not> list_all (\<lambda>c. c = CHR ''0'') g"
    by (auto simp: list_all_iff)
  then have nz: "Number_digits g \<noteq> Some 0"
    using digits_value_zero [of g 0] by (auto simp: Number_digits_def)
  from g(1) have "g = gs ! 0 \<or> g = gs ! 1 \<or> g = gs ! 2 \<or> g = gs ! 3 \<or> g = gs ! 4"
    by (auto simp: gs_def)
  with nz have "Number_digits (gs ! 0) \<noteq> Some 0 \<or> Number_digits (gs ! 1) \<noteq> Some 0
      \<or> Number_digits (gs ! 2) \<noteq> Some 0 \<or> Number_digits (gs ! 3) \<noteq> Some 0
      \<or> Number_digits (gs ! 4) \<noteq> Some 0"
    by auto
  moreover have "inWords n = group_text gs"
    using len gs unfolding inWords_def str Let_def pd_def [symmetric] by simp
  ultimately have words: "inWords n \<noteq> []"
    by (auto simp: group_text_def Let_def group_words_nonempty)
  from words len gs show ?thesis
    by (simp add: str pd_def)
qed

text \<open>
  What holds of the conversion: 0 gives \<open>Zero\<close>; every other input gives the words
  followed by \<open>Only\<close>, 100 giving \<open>One Hundred Only\<close>, and from 1 to \<open>10^9 - 1\<close> the words
  are not empty; an integer of 10 to 21 digits gives the marker \<open>overflow\<close> followed by
  \<open>Only\<close>.
\<close>

lemma numberToWords_in_decimal_range:
  "numberToWords 0 = ''Zero''
   \<and> (n \<noteq> 0 \<longrightarrow> numberToWords n = inWords n @ ''Only'')
   \<and> numberToWords 100 = ''One Hundred Only''
   \<and> (0 < n \<and> n < 10 ^ 9 \<longrightarrow> inWords n \<noteq> [])
   \<and> (10 ^ 9 \<le> n \<and> n < 10 ^ 21 \<longrightarrow> numberToWords n = ''overflowOnly'')"
proof -
  have "numberToWords 100 = ''One Hundred Only''"
    by (simp add: numberToWords_eval)
  moreover have "numberToWords n = ''overflowOnly''" if "10 ^ 9 \<le> n \<and> n < 10 ^ 21"
    using that inWords_overflow [of n] by (auto simp: numberToWords_def)
  ultimately show ?thesis
    using inWords_in_range [of n] by (simp add: numberToWords_def)
qed

text \<open>
  Claim C6 says that every input of \<open>10^9\<close> or more yields the overflow marker. The test
  for overflow is the length of the printed number. \<open>10^21\<close> prints in exponent notation
  as \<open>1e+21\<close>, five characters: the test passes it, the padded text is not nine digits,
  the pattern does not match, \<open>inWords\<close> returns the empty string and the result is the
  bare suffix \<open>Only\<close>, without any overflow marker.
\<close>

theorem numberToWords_exponent_input:
  "Number_toString (10 ^ 21) = ''1e+21'' \<and> inWords (10 ^ 21) = []
   \<and> numberToWords (10 ^ 21) = ''Only''"
  by (simp add: numberToWords_eval)

section \<open>Properties of the weight aggregation\<close>























section \<open>Properties of the invoice history\<close>



























section \<open>Properties of the CSV export\<close>

lemma unquote_escape:
  assumes "rest = [] \<or> hd rest \<noteq> CHR 0x22"
  shows "unquote (csv_escape t @ CHR 0x22 # rest) = Some (t, rest)"
proof (induction t)
  case Nil
  from assms show ?case
    by (cases rest) (simp_all add: csv_escape_def)
next
  case (Cons c t)
  have split: "csv_escape (c # t) = (if c = CHR 0x22 then [CHR 0x22, CHR 0x22] else [c]) @ csv_escape t"
    by (simp add: csv_escape_def)
  obtain d ds where next_: "csv_escape t @ CHR 0x22 # rest = d # ds"
    by (cases "csv_escape t @ CHR 0x22 # rest") simp_all
  with Cons show ?case
    by (simp add: split)
qed

lemma read_quoted_quoted:
  assumes "rest = [] \<or> hd rest \<noteq> CHR 0x22"
  shows "read_quoted (quoted t @ rest) = Some (t, rest)"
  using unquote_escape [OF assms, of t] by (simp add: read_quoted_def quoted_def)

lemma split_lines_plain: "CHR 0x0A \<notin> set t \<Longrightarrow> split_lines t = [t]"
  by (induction t) (auto split: list.splits)

lemma split_lines_append:
  "CHR 0x0A \<notin> set t \<Longrightarrow> split_lines (t @ CHR 0x0A # rest) = t # split_lines rest"
  by (induction t) (auto split: list.splits)

lemma split_lines_join:
  assumes "ls \<noteq> []" and "\<forall>l \<in> set ls. CHR 0x0A \<notin> set l"
  shows "split_lines (join_with [CHR 0x0A] ls) = ls"
  using assms
proof (induction "[CHR 0x0A]" ls rule: join_with.induct)
  case 1
  then show ?case by simp
next
  case (2 x)
  then show ?case by (simp add: split_lines_plain)
next
  case (3 x y ys)
  then show ?case by (simp add: split_lines_append)
qed

lemma csv_row_text:
  "csv_row shw invoice =
     inv_id invoice @ '','' @ inv_date invoice @ '','' @ quoted (inv_customerName invoice) @ '',''
     @ quoted (inv_customerCity invoice) @ '','' @ quoted (itemsString shw invoice) @ '',''
     @ shw (inv_total invoice)"
  by (simp add: csv_row_def)

lemma header_text: "join_with '','' headers = ''Bill No,Date,Customer Name,City,Items,Total Amount''"
  by (simp add: headers_def)


lemma count_escape:
  "count_list (csv_escape t) (CHR 0x22) = 2 * count_list t (CHR 0x22)
   \<and> filter (\<lambda>c. c \<noteq> CHR 0x22) (csv_escape t) = filter (\<lambda>c. c \<noteq> CHR 0x22) t"
  by (induction t) (simp_all add: csv_escape_def)

text \<open>
  Claim C9 promises a header and one line per invoice, \<open>n + 1\<close> lines, for every list.
  For the empty list the handler returns before it builds anything: no file, not one
  line. And a line feed inside a field stays in the text, within the quotes: one invoice
  whose customer name has two lines is exported as three lines.
\<close>

theorem exportCSV_empty_or_multiline:
  "handleExportCSV show_floor [] = None
   \<and> length (split_lines (the (handleExportCSV show_floor [two_line_name]))) = 3"
  by (simp add: handleExportCSV_def csvContent_def csv_row_def quoted_def csv_escape_def
      itemsString_def headers_def two_line_name_def bill_def show_floor_def
      Number_toString_eval)

text \<open>
  Claim C9, amended. For a list that is not empty the export is the header line and one
  row per invoice, in the order of the list, joined by line feeds: \<open>n + 1\<close> texts, and
  \<open>n + 1\<close> lines when no row contains a line feed. The header is
  \<open>Bill No,Date,Customer Name,City,Items,Total Amount\<close>. A row is the id, the date, the
  quoted customer name, city and items text and the total, separated by commas, the id
  and the total as they are. Quoting puts the text between two quotes and doubles every
  quote in it, changing nothing else; read back in the manner of RFC 4180 the quoted
  field gives the text again.
\<close>

theorem exportCSV_rows:
  "(invs \<noteq> [] \<longrightarrow>
      handleExportCSV shw invs =
        Some (join_with [CHR 0x0A] (join_with '','' headers # map (csv_row shw) invs)))
   \<and> length (join_with '','' headers # map (csv_row shw) invs) = length invs + 1
   \<and> join_with '','' headers = ''Bill No,Date,Customer Name,City,Items,Total Amount''
   \<and> csv_row shw a =
       inv_id a @ '','' @ inv_date a @ '','' @ quoted (inv_customerName a) @ '',''
       @ quoted (inv_customerCity a) @ '','' @ quoted (itemsString shw a) @ '',''
       @ shw (inv_total a)
   \<and> quoted t = CHR 0x22 # csv_escape t @ [CHR 0x22]
   \<and> count_list (csv_escape t) (CHR 0x22) = 2 * count_list t (CHR 0x22)
   \<and> filter (\<lambda>c. c \<noteq> CHR 0x22) (csv_escape t) = filter (\<lambda>c. c \<noteq> CHR 0x22) t
   \<and> (rest = [] \<or> hd rest \<noteq> CHR 0x22 \<longrightarrow> read_quoted (quoted t @ rest) = Some (t, rest))
   \<and> (invs \<noteq> [] \<and> (\<forall>i \<in> set invs. CHR 0x0A \<notin> set (csv_row shw i)) \<longrightarrow>
        (\<exists>csv. handleExportCSV shw invs = Some csv
           \<and> split_lines csv = join_with '','' headers # map (csv_row shw) invs
           \<and> length (split_lines csv) = length invs + 1))"
proof -
  let ?ls = "join_with '','' headers # map (csv_row shw) invs"
  have lines: "\<exists>csv. handleExportCSV shw invs = Some csv
           \<and> split_lines csv = ?ls \<and> length (split_lines csv) = length invs + 1"
    if "invs \<noteq> [] \<and> (\<forall>i \<in> set invs. CHR 0x0A \<notin> set (csv_row shw i))"
  proof -
    have "CHR 0x0A \<notin> set (join_with '','' headers)"
      by (simp add: header_text)
    with that have "\<forall>l \<in> set ?ls. CHR 0x0A \<notin> set l"
      by simp
    then have "split_lines (join_with [CHR 0x0A] ?ls) = ?ls"
      by (intro split_lines_join) simp_all
    with that show ?thesis
      by (simp add: handleExportCSV_def csvContent_def)
  qed
  have "invs \<noteq> [] \<longrightarrow> handleExportCSV shw invs = Some (join_with [CHR 0x0A] ?ls)"
    by (simp add: handleExportCSV_def csvContent_def)
  moreover have "length ?ls = length invs + 1"
    by simp
  moreover have "quoted t = CHR 0x22 # csv_escape t @ [CHR 0x22]"
    by (simp add: quoted_def)
  ultimately show ?thesis
    using header_text csv_row_text [of shw a] count_escape [of t]
      read_quoted_quoted [of rest t] lines
    by blast
qed

lemma sale_row:
  "csv_row show_floor sale =
     ''7,03/11/2026,'' @ [CHR 0x22] @ ''Asha '' @ [CHR 0x22, CHR 0x22] @ ''A1''
     @ [CHR 0x22, CHR 0x22] @ '', Pune'' @ [CHR 0x22] @ '','' @ [CHR 0x22] @ ''Pune''
     @ [CHR 0x22] @ '','' @ [CHR 0x22] @ ''Rice 1 kg (3 bag), Salt (1 pcs)'' @ [CHR 0x22]
     @ '',155''"
  by (simp add: csv_row_def quoted_def csv_escape_def itemsString_def item_text_def sale_def
      bill_def rice_def salt_def show_floor_def Number_toString_eval)

theorem exportCSV_rows_witness:
  "handleExportCSV show_floor [sale] =
     Some (''Bill No,Date,Customer Name,City,Items,Total Amount'' @ [CHR 0x0A]
           @ csv_row show_floor sale)
   \<and> split_lines (the (handleExportCSV show_floor [sale])) =
       [''Bill No,Date,Customer Name,City,Items,Total Amount'', csv_row show_floor sale]
   \<and> read_quoted (quoted (inv_customerName sale) @ '',rest'')
       = Some (''Asha '' @ [CHR 0x22] @ ''A1'' @ [CHR 0x22] @ '', Pune'', '',rest'')"
proof -
  note t = exportCSV_rows [of "[sale]" show_floor sale "inv_customerName sale" "'',rest''"]
  have ne: "[sale] \<noteq> []"
    by simp
  have nl: "\<forall>i \<in> set [sale]. CHR 0x0A \<notin> set (csv_row show_floor i)"
    by (simp add: sale_row)
  have r: "'',rest'' = [] \<or> hd '',rest'' \<noteq> CHR 0x22"
    by simp
  from t ne have a: "handleExportCSV show_floor [sale] =
      Some (join_with [CHR 0x0A] (join_with '','' headers # map (csv_row show_floor) [sale]))"
    by blast
  from t have h: "join_with '','' headers = ''Bill No,Date,Customer Name,City,Items,Total Amount''"
    by blast
  from t ne nl obtain csv where c: "handleExportCSV show_floor [sale] = Some csv"
    "split_lines csv = join_with '','' headers # map (csv_row show_floor) [sale]"
    by blast
  from t r have q: "read_quoted (quoted (inv_customerName sale) @ '',rest'')
      = Some (inv_customerName sale, '',rest'')"
    by blast
  have n: "inv_customerName sale = ''Asha '' @ [CHR 0x22] @ ''A1'' @ [CHR 0x22] @ '', Pune''"
    by (simp add: sale_def bill_def)
  from a have a': "handleExportCSV show_floor [sale] =
     Some (''Bill No,Date,Customer Name,City,Items,Total Amount'' @ [CHR 0x0A]
           @ csv_row show_floor sale)"
    unfolding h by simp
  from c have c': "split_lines (the (handleExportCSV show_floor [sale])) =
       [''Bill No,Date,Customer Name,City,Items,Total Amount'', csv_row show_floor sale]"
    unfolding h by simp
  from q have q': "read_quoted (quoted (inv_customerName sale) @ '',rest'')
       = Some (''Asha '' @ [CHR 0x22] @ ''A1'' @ [CHR 0x22] @ '', Pune'', '',rest'')"
    unfolding n .
  from a' c' q' show ?thesis by blast
qed

end
